theory Spec2Isabelle
  imports Main
begin

section \<open>Event records and errors\<close>

text \<open>
  A message is the JSON object the remote service returns. The model keeps the keys the
  archiver reads: \<open>m['id']\<close>, \<open>m['author']['id']\<close>, \<open>m['channel_id']\<close>, the key
  \<open>m['_id']\<close> that \<open>MongoMotorArchive.add_messages\<close> writes into the message, and the rest
  of the object as an opaque payload. In the program an id is a string of decimal digits;
  the model holds it by its number, \<open>int(m['id'])\<close>.
\<close>

record message =
  msg_id :: int
  author_id :: int
  channel_id :: int
  mongo_id :: "int option"
  payload :: string

datatype error =
    KeyError
  | TypeError
  | DuplicateKeyError
  | NotImplementedError
  | RemoteFetchError

section \<open>Storage backends\<close>

datatype backend = TinyDBArchive | MongoMotorArchive

text \<open>
  The state of one backend instance: its class, the location it was opened on, the stored
  documents in the order the store enumerates them, the documents the store held when
  \<open>flush()\<close> was last called on it, and the number of times \<open>flush()\<close> has been called.
\<close>

record archive =
  kind :: backend
  path :: string
  db :: "message list"
  flushed :: "message list"
  flush_calls :: nat

subsection \<open>get_all_messages and get_messages\<close>

definition get_all_messages :: "archive \<Rightarrow> message list" where
  "get_all_messages a = db a"

text \<open>
  The Python values that an id given to \<open>get_messages\<close> can be: \<open>None\<close>, an id (a
  string of digits, held by its number as the ids of the messages are), or an integer. An id
  string is never empty, so it is truthy; an integer is truthy unless it is 0, and it is
  equal to no id string.
\<close>

datatype pyval =
    PyNone
  | PyId int
  | PyInt int

fun truthy :: "pyval \<Rightarrow> bool" where
  "truthy PyNone = False"
| "truthy (PyId i) = True"
| "truthy (PyInt i) = (i \<noteq> 0)"

text \<open>
  The \<open>user\<close> and \<open>channel\<close> arguments of \<open>get_messages\<close>: an object with an \<open>id\<close>
  attribute, a dictionary, or a bare value (\<open>None\<close> when the argument is left out).
\<close>

datatype id_arg =
    HasId pyval
  | DictArg "string \<rightharpoonup> pyval"
  | Bare pyval

text \<open>
  The \<open>if hasattr / elif isinstance dict / elif user\<close> chain, starting from
  \<open>user_id = None\<close>. The id of an object or of a dictionary is taken as it is; a
  dictionary without the key raises; a bare value is taken only when it is truthy.
\<close>

fun resolve_id :: "id_arg \<Rightarrow> error + pyval" where
  "resolve_id (HasId v) = Inr v"
| "resolve_id (DictArg d) = (case d ''id'' of None \<Rightarrow> Inl KeyError | Some v \<Rightarrow> Inr v)"
| "resolve_id (Bare v) = Inr (if truthy v then v else PyNone)"

text \<open>The \<open>async for m in messages\<close> loop with its two \<open>continue\<close> tests.\<close>

fun search_messages :: "pyval \<Rightarrow> pyval \<Rightarrow> message list \<Rightarrow> message list" where
  "search_messages user_id chan_id [] = []"
| "search_messages user_id chan_id (m # ms) =
     (if user_id \<noteq> PyNone \<and> user_id \<noteq> PyId (author_id m) then search_messages user_id chan_id ms
      else if chan_id \<noteq> PyNone \<and> chan_id \<noteq> PyId (channel_id m) then search_messages user_id chan_id ms
      else m # search_messages user_id chan_id ms)"

definition get_messages :: "archive \<Rightarrow> id_arg \<Rightarrow> id_arg \<Rightarrow> error + message list" where
  "get_messages a user channel =
     (case resolve_id user of
        Inl e \<Rightarrow> Inl e
      | Inr user_id \<Rightarrow>
          (case resolve_id channel of
             Inl e \<Rightarrow> Inl e
           | Inr chan_id \<Rightarrow> Inr (search_messages user_id chan_id (get_all_messages a))))"

subsection \<open>add_messages\<close>

text \<open>\<open>self.db.contains(Message.id == i)\<close> of the file store.\<close>

definition contains_id :: "message list \<Rightarrow> int \<Rightarrow> bool" where
  "contains_id docs i = (i \<in> set (map msg_id docs))"

text \<open>
  \<open>TinyDBArchive.add_messages\<close> (the later, asynchronous definition, which is the one the
  class ends up with): the loop over \<open>messages\<close> with the counter \<open>added\<close>.
\<close>

fun tinydb_add_messages :: "message list \<Rightarrow> bool \<Rightarrow> nat \<Rightarrow> message list \<Rightarrow> nat \<times> message list" where
  "tinydb_add_messages [] all_new added docs = (added, docs)"
| "tinydb_add_messages (msg # rest) all_new added docs =
     (if all_new \<or> \<not> contains_id docs (msg_id msg)
      then tinydb_add_messages rest all_new (added + 1) (docs @ [msg])
      else tinydb_add_messages rest all_new added docs)"

text \<open>
  The document collection of the networked store: \<open>find_one({'_id': k})\<close> gives the first
  document stored under the key, and \<open>insert_one\<close> refuses a document whose \<open>_id\<close> is
  already taken.
\<close>

definition find_one :: "message list \<Rightarrow> int \<Rightarrow> message option" where
  "find_one docs k = find (\<lambda>d. mongo_id d = Some k) docs"

definition insert_one :: "message list \<Rightarrow> message \<Rightarrow> error + message list" where
  "insert_one docs m =
     (case mongo_id m of
        None \<Rightarrow> Inr (docs @ [m])
      | Some k \<Rightarrow> (if find_one docs k \<noteq> None then Inl DuplicateKeyError else Inr (docs @ [m])))"

text \<open>
  \<open>MongoMotorArchive.add_messages\<close>: every message first gets \<open>m['_id'] = m['id']\<close>; with
  \<open>all_new\<close> it is inserted unseen, otherwise only when \<open>find_one\<close> finds nothing.
\<close>

fun mongo_add_messages :: "message list \<Rightarrow> bool \<Rightarrow> nat \<Rightarrow> message list \<Rightarrow> error + (nat \<times> message list)" where
  "mongo_add_messages [] all_new added docs = Inr (added, docs)"
| "mongo_add_messages (m0 # rest) all_new added docs =
     (let m = m0\<lparr>mongo_id := Some (msg_id m0)\<rparr> in
      if all_new then
        (case insert_one docs m of
           Inl e \<Rightarrow> Inl e
         | Inr docs' \<Rightarrow> mongo_add_messages rest all_new (added + 1) docs')
      else
        (case find_one docs (msg_id m0) of
           Some t \<Rightarrow> mongo_add_messages rest all_new added docs
         | None \<Rightarrow>
             (case insert_one docs m of
                Inl e \<Rightarrow> Inl e
              | Inr docs' \<Rightarrow> mongo_add_messages rest all_new (added + 1) docs')))"

definition add_messages :: "archive \<Rightarrow> message list \<Rightarrow> bool \<Rightarrow> error + (nat \<times> archive)" where
  "add_messages a messages all_new =
     (case kind a of
        TinyDBArchive \<Rightarrow>
          (case tinydb_add_messages messages all_new 0 (db a) of
             (added, docs) \<Rightarrow> Inr (added, a\<lparr>db := docs\<rparr>))
      | MongoMotorArchive \<Rightarrow>
          (case mongo_add_messages messages all_new 0 (db a) of
             Inl e \<Rightarrow> Inl e
           | Inr (added, docs) \<Rightarrow> Inr (added, a\<lparr>db := docs\<rparr>)))"

text \<open>
  \<open>flush\<close>: the file store hands over to its caching storage, the networked store inherits
  the empty method of the base class; the model records the call and what the store held
  when it was made.
\<close>

definition flush :: "archive \<Rightarrow> archive" where
  "flush a = a\<lparr>flushed := db a, flush_calls := flush_calls a + 1\<rparr>"

section \<open>The synchronisation engine\<close>

subsection \<open>The remote fetcher\<close>

text \<open>
  \<open>_fetch_messages\<close> builds the request (the \<open>before\<close> and \<open>after\<close> cursors are added only
  when they are truthy) and hands it to the HTTP client of the bot, which is outside the
  program: the model takes the client as a function from the channel id and the request to
  the page it answers with, or to the error it raises.
\<close>

record fetch_request =
  req_limit :: nat
  req_before :: "int option"
  req_after :: "int option"

type_synonym http = "int \<Rightarrow> fetch_request \<Rightarrow> error + message list"

definition truthy_id :: "int option \<Rightarrow> int option" where
  "truthy_id c = (case c of None \<Rightarrow> None | Some i \<Rightarrow> (if i \<noteq> 0 then Some i else None))"

definition fetch_messages :: "http \<Rightarrow> int \<Rightarrow> nat \<Rightarrow> int option \<Rightarrow> int option \<Rightarrow> error + message list" where
  "fetch_messages request channel limit before after =
     request channel \<lparr>req_limit = limit, req_before = truthy_id before, req_after = truthy_id after\<rparr>"

subsection \<open>archive_channel\<close>

text \<open>
  The watermark loop, with the two assignments of its body as they are written:
  \<open>oldest_id = min(latest_id, int(msg['id']))\<close> and
  \<open>latest_id = max(latest_id, int(msg['id']))\<close>. The synchronous and the asynchronous
  branch have the same body.
\<close>

fun scan_watermarks :: "message list \<Rightarrow> int \<Rightarrow> int \<Rightarrow> int \<times> int" where
  "scan_watermarks [] oldest_id latest_id = (oldest_id, latest_id)"
| "scan_watermarks (msg # rest) oldest_id latest_id =
     scan_watermarks rest (min latest_id (msg_id msg)) (max latest_id (msg_id msg))"

text \<open>The loops over a fetched page that move one watermark.\<close>

fun advance_latest :: "message list \<Rightarrow> int \<Rightarrow> int" where
  "advance_latest [] latest_id = latest_id"
| "advance_latest (msg # rest) latest_id = advance_latest rest (max latest_id (msg_id msg))"

fun advance_oldest :: "message list \<Rightarrow> int \<Rightarrow> int" where
  "advance_oldest [] oldest_id = oldest_id"
| "advance_oldest (msg # rest) oldest_id = advance_oldest rest (min oldest_id (msg_id msg))"

text \<open>
  The two \<open>while True\<close> loops. Nothing in the program bounds the number of pages, so each
  loop runs on fuel: \<open>None\<close> is a loop that has not left within that many iterations,
  \<open>Some (Inl e)\<close> an exception, \<open>Some (Inr \<dots>)\<close> the state at the \<open>break\<close>.
\<close>

fun get_new_messages ::
  "nat \<Rightarrow> http \<Rightarrow> int \<Rightarrow> archive \<Rightarrow> nat \<Rightarrow> int \<Rightarrow> (error + (archive \<times> nat \<times> int)) option" where
  "get_new_messages 0 request channel a added latest_id = None"
| "get_new_messages (Suc fuel) request channel a added latest_id =
     (case fetch_messages request channel 100 None (Some latest_id) of
        Inl e \<Rightarrow> Some (Inl e)
      | Inr messages \<Rightarrow>
          (if length messages = 0 then Some (Inr (a, added, latest_id))
           else
             (case add_messages a messages True of
                Inl e \<Rightarrow> Some (Inl e)
              | Inr (n, a') \<Rightarrow>
                  get_new_messages fuel request channel a' (added + n)
                    (advance_latest messages latest_id))))"

fun get_old_messages ::
  "nat \<Rightarrow> http \<Rightarrow> int \<Rightarrow> archive \<Rightarrow> nat \<Rightarrow> int \<Rightarrow> (error + (archive \<times> nat \<times> int)) option" where
  "get_old_messages 0 request channel a added oldest_id = None"
| "get_old_messages (Suc fuel) request channel a added oldest_id =
     (case fetch_messages request channel 100 (Some oldest_id) None of
        Inl e \<Rightarrow> Some (Inl e)
      | Inr messages \<Rightarrow>
          (if length messages = 0 then Some (Inr (a, added, oldest_id))
           else
             (case add_messages a messages True of
                Inl e \<Rightarrow> Some (Inl e)
              | Inr (n, a') \<Rightarrow>
                  get_old_messages fuel request channel a' (added + n)
                    (advance_oldest messages oldest_id))))"

text \<open>
  \<open>archive_channel\<close> from the watermark phase on: \<open>msg1\<close> seeds both watermarks,
  \<open>messages\<close> is what the watermark loop iterates over, then come the two fill loops, the
  flush and the return of \<open>added\<close>.
\<close>

definition fill_channel ::
  "nat \<Rightarrow> http \<Rightarrow> int \<Rightarrow> archive \<Rightarrow> nat \<Rightarrow> message \<Rightarrow> message list \<Rightarrow> (error + (nat \<times> archive)) option" where
  "fill_channel fuel request channel a added msg1 messages =
     (case scan_watermarks messages (msg_id msg1) (msg_id msg1) of
        (oldest_id, latest_id) \<Rightarrow>
          (case get_new_messages fuel request channel a added latest_id of
             None \<Rightarrow> None
           | Some (Inl e) \<Rightarrow> Some (Inl e)
           | Some (Inr (a1, added1, latest1)) \<Rightarrow>
               (case get_old_messages fuel request channel a1 added1 oldest_id of
                  None \<Rightarrow> None
                | Some (Inl e) \<Rightarrow> Some (Inl e)
                | Some (Inr (a2, added2, oldest2)) \<Rightarrow> Some (Inr (added2, flush a2)))))"

text \<open>
  The whole of \<open>archive_channel\<close>. When the store has a record of the channel, \<open>msg1\<close> is the
  first one the generator yields and the watermark loop consumes the rest of the generator.
  When it has none, the first page is fetched; an empty page returns 0 at once, and
  otherwise the page is inserted with \<open>all_new=True\<close>, \<open>msg1\<close> is its first message and the
  watermark loop runs over the whole page.
\<close>

definition archive_channel ::
  "nat \<Rightarrow> http \<Rightarrow> archive \<Rightarrow> int \<Rightarrow> (error + (nat \<times> archive)) option" where
  "archive_channel fuel request a channel =
     (case get_messages a (Bare PyNone) (HasId (PyId channel)) of
        Inl e \<Rightarrow> Some (Inl e)
      | Inr stored \<Rightarrow>
          (case stored of
             msg1 # rest \<Rightarrow> fill_channel fuel request channel a 0 msg1 rest
           | [] \<Rightarrow>
               (case fetch_messages request channel 100 None None of
                  Inl e \<Rightarrow> Some (Inl e)
                | Inr messages \<Rightarrow>
                    (case messages of
                       [] \<Rightarrow> Some (Inr (0, a))
                     | msg1 # others \<Rightarrow>
                         (case add_messages a messages True of
                            Inl e \<Rightarrow> Some (Inl e)
                          | Inr (n, a') \<Rightarrow>
                              fill_channel fuel request channel a' (0 + n) msg1 messages)))))"

text \<open>
  The watermark pair that \<open>archive_channel\<close> holds after its watermark phase for a channel
  that has stored records: \<open>None\<close> when the store has none for the channel.
\<close>

definition stored_watermarks :: "archive \<Rightarrow> int \<Rightarrow> (int \<times> int) option" where
  "stored_watermarks a channel =
     (case get_messages a (Bare PyNone) (HasId (PyId channel)) of
        Inr (msg1 # rest) \<Rightarrow> Some (scan_watermarks rest (msg_id msg1) (msg_id msg1))
      | _ \<Rightarrow> None)"

text \<open>
  A remote source that holds a fixed list of events, newest first, and answers a request
  with the events of the channel strictly between the cursors, at most \<open>limit\<close> of them.
\<close>

definition remote_holding :: "message list \<Rightarrow> http" where
  "remote_holding events channel req =
     Inr (take (req_limit req)
            (filter (\<lambda>m. channel_id m = channel
                       \<and> (case req_before req of None \<Rightarrow> True | Some b \<Rightarrow> msg_id m < b)
                       \<and> (case req_after req of None \<Rightarrow> True | Some c \<Rightarrow> c < msg_id m))
               events))"

section \<open>Configuration and the backend registry\<close>

datatype cfg_value = VStr string | VBool bool

type_synonym config = "string \<rightharpoonup> cfg_value"

text \<open>Which of the two optional storage drivers could be imported.\<close>

record drivers =
  TinyDB :: bool
  Motor :: bool

definition archive_backends :: "drivers \<Rightarrow> string \<rightharpoonup> backend" where
  "archive_backends imp name =
     (if name = ''TinyDB'' \<and> TinyDB imp then Some TinyDBArchive
      else if name = ''MongoDB'' \<and> Motor imp then Some MongoMotorArchive
      else None)"

definition DEFAULT_PATH :: "drivers \<Rightarrow> string \<rightharpoonup> string" where
  "DEFAULT_PATH imp name =
     (if name = ''TinyDB'' \<and> TinyDB imp then Some ''data/archiver/messages.json''
      else if name = ''MongoDB'' \<and> Motor imp then Some ''mongodb://localhost/discordArchiver''
      else None)"

definition DEFAULT_CONFIG :: config where
  "DEFAULT_CONFIG = [''backend'' \<mapsto> VStr ''TinyDB'', ''watch'' \<mapsto> VBool False]"

text \<open>What the command handler says to the chat.\<close>

datatype reply =
    ShowConfig config
  | ShowSetting string cfg_value
  | BackendNotInstalled string
  | BackendReloaded

text \<open>
  The service: \<open>self.config\<close>, the parsed content of the config file (\<open>None\<close> while the file
  does not exist), the active backend as the class and location it was built with (\<open>None\<close>
  before the first \<open>_make_backend\<close>), the number of backends built and closed so far, and the
  replies sent.
\<close>

record archiver =
  config :: config
  config_file :: "config option"
  active :: "(backend \<times> cfg_value) option"
  builds :: nat
  closes :: nat
  said :: "reply list"

definition load_config :: "archiver \<Rightarrow> archiver" where
  "load_config s =
     s\<lparr>config := (case config_file s of
                     None \<Rightarrow> DEFAULT_CONFIG
                   | Some json_config \<Rightarrow> DEFAULT_CONFIG ++ json_config)\<rparr>"

definition save_config :: "archiver \<Rightarrow> archiver" where
  "save_config s = s\<lparr>config_file := Some (config s)\<rparr>"

text \<open>
  \<open>_make_backend\<close>. \<open>DEFAULT_PATH[backend]\<close> is an argument of \<open>setdefault\<close>, so it is
  looked up (and may raise) whether or not the path is configured.
\<close>

definition make_backend :: "drivers \<Rightarrow> archiver \<Rightarrow> error + archiver" where
  "make_backend imp s =
     (let s1 = (if active s \<noteq> None then s\<lparr>closes := closes s + 1\<rparr> else s) in
      case config s1 ''backend'' of
        None \<Rightarrow> Inl KeyError
      | Some (VBool b) \<Rightarrow> Inl TypeError
      | Some (VStr backend) \<Rightarrow>
          (case DEFAULT_PATH imp backend of
             None \<Rightarrow> Inl KeyError
           | Some default_path \<Rightarrow>
               (let key = backend @ ''_path'';
                    location = (case config s1 key of None \<Rightarrow> VStr default_path | Some v \<Rightarrow> v);
                    s2 = s1\<lparr>config := (config s1)(key \<mapsto> location)\<rparr>
                in case archive_backends imp backend of
                     None \<Rightarrow> Inl KeyError
                   | Some cls \<Rightarrow> Inr (s2\<lparr>active := Some (cls, location), builds := builds s2 + 1\<rparr>))))"

text \<open>\<open>Archiver.__init__\<close>, given the content of the config file found on disk.\<close>

definition init :: "drivers \<Rightarrow> config option \<Rightarrow> error + archiver" where
  "init imp file =
     make_backend imp
       (save_config
          (load_config
             \<lparr>config = Map.empty, config_file = file, active = None,
              builds = 0, closes = 0, said = []\<rparr>))"

definition is_path_key :: "string \<Rightarrow> bool" where
  "is_path_key key = (length key > 5 \<and> drop (length key - 5) key = ''_path'')"

text \<open>The \<open>archive config\<close> command.\<close>

definition archive_config :: "drivers \<Rightarrow> archiver \<Rightarrow> string option \<Rightarrow> string option \<Rightarrow> error + archiver" where
  "archive_config imp s key value =
     (case key of
        None \<Rightarrow> Inr (s\<lparr>said := said s @ [ShowConfig (config s)]\<rparr>)
      | Some k \<Rightarrow>
          if k = ''reload'' then make_backend imp (load_config s)
          else
            (case value of
               None \<Rightarrow>
                 (case config s k of
                    None \<Rightarrow> Inl KeyError
                  | Some v \<Rightarrow> Inr (s\<lparr>said := said s @ [ShowSetting k v]\<rparr>))
             | Some v \<Rightarrow>
                 if k = ''backend'' \<and> archive_backends imp v = None
                 then Inr (s\<lparr>said := said s @ [BackendNotInstalled v]\<rparr>)
                 else
                   (let s1 = s\<lparr>config := (config s)(k \<mapsto> VStr v)\<rparr> in
                    if is_path_key k \<or> k = ''backend'' then
                      (case make_backend imp s1 of
                         Inl e \<Rightarrow> Inl e
                       | Inr s2 \<Rightarrow> Inr (save_config (s2\<lparr>said := said s2 @ [BackendReloaded]\<rparr>)))
                    else Inr (save_config s1))))"

section \<open>Notions used in the statements\<close>

text \<open>
  Every document that \<open>MongoMotorArchive.add_messages\<close> inserts carries \<open>_id = id\<close>. A
  networked store all of whose documents do is keyed by id; for the file store nothing
  is asked.
\<close>

definition keyed_by_id :: "archive \<Rightarrow> bool" where
  "keyed_by_id a =
     (case kind a of
        TinyDBArchive \<Rightarrow> True
      | MongoMotorArchive \<Rightarrow> list_all (\<lambda>d. mongo_id d = Some (msg_id d)) (db a))"

text \<open>
  The document a backend stores for a message: the file store stores the message as it is,
  the networked store with \<open>_id\<close> set to its id.
\<close>

definition stored_form :: "backend \<Rightarrow> message \<Rightarrow> message" where
  "stored_form b m = (case b of TinyDBArchive \<Rightarrow> m | MongoMotorArchive \<Rightarrow> m\<lparr>mongo_id := Some (msg_id m)\<rparr>)"

text \<open>The configuration a load produces: the defaults, overridden by the file.\<close>

definition merged_config :: "config option \<Rightarrow> config" where
  "merged_config file = (case file of None \<Rightarrow> DEFAULT_CONFIG | Some json_config \<Rightarrow> DEFAULT_CONFIG ++ json_config)"

subsection \<open>Concrete inputs\<close>

text \<open>
  An event of channel 1 by author 1; a file store and a networked store that hold the given
  documents, all of them there at the last flush.
\<close>

definition event :: "int \<Rightarrow> message" where
  "event i = \<lparr>msg_id = i, author_id = 1, channel_id = 1, mongo_id = None, payload = []\<rparr>"

definition file_store :: "message list \<Rightarrow> nat \<Rightarrow> archive" where
  "file_store docs n =
     \<lparr>kind = TinyDBArchive, path = ''data/archiver/messages.json'', db = docs,
      flushed = docs, flush_calls = n\<rparr>"

definition document_store :: "message list \<Rightarrow> nat \<Rightarrow> archive" where
  "document_store docs n =
     \<lparr>kind = MongoMotorArchive, path = ''mongodb://localhost/discordArchiver'', db = docs,
      flushed = docs, flush_calls = n\<rparr>"

text \<open>A remote source that holds the events 9, 7 and 5 of channel 1.\<close>

definition small_remote :: http where
  "small_remote = remote_holding [event 9, event 7, event 5]"

definition both_drivers :: drivers where
  "both_drivers = \<lparr>TinyDB = True, Motor = True\<rparr>"

text \<open>A running service whose config file names the backend and nothing else.\<close>

definition sparse_service :: archiver where
  "sparse_service =
     \<lparr>config = [''backend'' \<mapsto> VStr ''TinyDB'', ''watch'' \<mapsto> VBool False,
                 ''TinyDB_path'' \<mapsto> VStr ''data/archiver/messages.json''],
      config_file = Some [''backend'' \<mapsto> VStr ''TinyDB''],
      active = Some (TinyDBArchive, VStr ''data/archiver/messages.json''),
      builds = 1, closes = 0, said = []\<rparr>"

section \<open>Properties of the storage backends\<close>

lemma search_messages_filter:
  "search_messages user_id chan_id ms =
     filter (\<lambda>m. (user_id = PyNone \<or> user_id = PyId (author_id m))
                \<and> (chan_id = PyNone \<or> chan_id = PyId (channel_id m))) ms"
  by (induction ms) auto

text \<open>What \<open>get_messages\<close> yields, once both arguments have been resolved to an id.\<close>

lemma get_messages_yields:
  assumes "resolve_id user = Inr user_id" and "resolve_id channel = Inr chan_id"
  shows "get_messages a user channel =
           Inr (filter (\<lambda>m. (user_id = PyNone \<or> user_id = PyId (author_id m))
                           \<and> (chan_id = PyNone \<or> chan_id = PyId (channel_id m))) (db a))"
  using assms by (simp add: get_messages_def get_all_messages_def search_messages_filter)

lemma find_one_None: "(find_one docs k = None) = (\<forall>d \<in> set docs. mongo_id d \<noteq> Some k)"
  by (auto simp: find_one_def find_None_iff)

lemma keyed_find_one:
  "list_all (\<lambda>d. mongo_id d = Some (msg_id d)) docs \<Longrightarrow>
     (find_one docs k = None) = (\<not> contains_id docs k)"
  by (auto simp: find_one_None contains_id_def list_all_iff)

lemma no_id_filter: "\<not> contains_id docs i \<Longrightarrow> filter (\<lambda>d. msg_id d = i) docs = []"
  by (auto simp: contains_id_def filter_empty_conv)

text \<open>\<open>add_messages\<close> keeps a networked store keyed by id.\<close>

lemma mongo_add_messages_keyed:
  "list_all (\<lambda>d. mongo_id d = Some (msg_id d)) docs \<Longrightarrow>
   mongo_add_messages ms f k docs = Inr (n, docs') \<Longrightarrow>
   list_all (\<lambda>d. mongo_id d = Some (msg_id d)) docs'"
proof (induction ms arbitrary: k docs)
  case Nil
  then show ?case by simp
next
  case (Cons m ms)
  let ?d = "docs @ [m\<lparr>mongo_id := Some (msg_id m)\<rparr>]"
  have step: "list_all (\<lambda>d. mongo_id d = Some (msg_id d)) ?d"
    using Cons.prems(1) by simp
  from Cons.prems(2) consider
      (skip) "mongo_add_messages ms f k docs = Inr (n, docs')"
    | (ins) "mongo_add_messages ms f (k + 1) ?d = Inr (n, docs')"
    by (auto simp: insert_one_def Let_def split: if_splits option.splits sum.splits)
  then show ?case
  proof cases
    case skip
    then show ?thesis using Cons.IH Cons.prems(1) by blast
  next
    case ins
    then show ?thesis using Cons.IH step by blast
  qed
qed

lemma add_messages_keeps_keyed:
  assumes "keyed_by_id a" and "add_messages a ms f = Inr (n, a')"
  shows "keyed_by_id a'"
proof (cases "kind a")
  case TinyDBArchive
  with assms(2) show ?thesis
    by (auto simp: add_messages_def keyed_by_id_def split: prod.splits)
next
  case MongoMotorArchive
  with assms(2) obtain docs' where
    m: "mongo_add_messages ms f 0 (db a) = Inr (n, docs')" and a': "a' = a\<lparr>db := docs'\<rparr>"
    by (auto simp: add_messages_def split: sum.splits prod.splits)
  have "list_all (\<lambda>d. mongo_id d = Some (msg_id d)) (db a)"
    using assms(1) MongoMotorArchive by (simp add: keyed_by_id_def)
  from mongo_add_messages_keyed [OF this m] show ?thesis
    using MongoMotorArchive a' by (simp add: keyed_by_id_def)
qed

text \<open>
  C6. For a record \<open>r\<close> whose id is not yet stored, on either backend, two calls of
  \<open>add_messages([r], all_new=False)\<close> in a row return 1 and then 0. The first call
  appends the one stored copy of \<open>r\<close> to the store and leaves every other document as it
  was, the second call changes nothing, and afterwards that copy is the only document with
  the id of \<open>r\<close>. (A networked store is taken as the program fills it: keyed by id.)
\<close>

theorem add_messages_twice:
  assumes "\<not> contains_id (db a) (msg_id r)" and "keyed_by_id a"
  shows "add_messages a [r] False = Inr (1, a\<lparr>db := db a @ [stored_form (kind a) r]\<rparr>)
         \<and> add_messages (a\<lparr>db := db a @ [stored_form (kind a) r]\<rparr>) [r] False
             = Inr (0, a\<lparr>db := db a @ [stored_form (kind a) r]\<rparr>)
         \<and> filter (\<lambda>d. msg_id d = msg_id r) (db a @ [stored_form (kind a) r])
             = [stored_form (kind a) r]"
proof (cases "kind a")
  case TinyDBArchive
  then show ?thesis
    using assms(1) no_id_filter [OF assms(1)]
    by (simp add: add_messages_def contains_id_def stored_form_def)
next
  case MongoMotorArchive
  let ?m = "r\<lparr>mongo_id := Some (msg_id r)\<rparr>"
  have k: "list_all (\<lambda>d. mongo_id d = Some (msg_id d)) (db a)"
    using assms(2) MongoMotorArchive by (simp add: keyed_by_id_def)
  have n: "find_one (db a) (msg_id r) = None"
    using assms(1) k by (simp add: keyed_find_one)
  have s: "find_one (db a @ [?m]) (msg_id r) \<noteq> None"
    by (simp add: find_one_None)
  show ?thesis
    using MongoMotorArchive n s no_id_filter [OF assms(1)]
    by (auto simp: add_messages_def insert_one_def stored_form_def Let_def split: option.splits)
qed

theorem add_messages_twice_witness:
  "add_messages (document_store [(event 3)\<lparr>mongo_id := Some 3\<rparr>] 0) [event 5] False
     = Inr (1, document_store [(event 3)\<lparr>mongo_id := Some 3\<rparr>, (event 5)\<lparr>mongo_id := Some 5\<rparr>] 0
                 \<lparr>flushed := [(event 3)\<lparr>mongo_id := Some 3\<rparr>]\<rparr>)
   \<and> add_messages (document_store [(event 3)\<lparr>mongo_id := Some 3\<rparr>, (event 5)\<lparr>mongo_id := Some 5\<rparr>] 0
                 \<lparr>flushed := [(event 3)\<lparr>mongo_id := Some 3\<rparr>]\<rparr>) [event 5] False
     = Inr (0, document_store [(event 3)\<lparr>mongo_id := Some 3\<rparr>, (event 5)\<lparr>mongo_id := Some 5\<rparr>] 0
                 \<lparr>flushed := [(event 3)\<lparr>mongo_id := Some 3\<rparr>]\<rparr>)"
proof -
  have h1: "\<not> contains_id (db (document_store [(event 3)\<lparr>mongo_id := Some 3\<rparr>] 0)) (msg_id (event 5))"
    by (simp add: contains_id_def document_store_def event_def)
  have h2: "keyed_by_id (document_store [(event 3)\<lparr>mongo_id := Some 3\<rparr>] 0)"
    by (simp add: keyed_by_id_def document_store_def event_def)
  have e: "(document_store [(event 3)\<lparr>mongo_id := Some 3\<rparr>] 0)
             \<lparr>db := db (document_store [(event 3)\<lparr>mongo_id := Some 3\<rparr>] 0)
                     @ [stored_form (kind (document_store [(event 3)\<lparr>mongo_id := Some 3\<rparr>] 0)) (event 5)]\<rparr>
           = document_store [(event 3)\<lparr>mongo_id := Some 3\<rparr>, (event 5)\<lparr>mongo_id := Some 5\<rparr>] 0
               \<lparr>flushed := [(event 3)\<lparr>mongo_id := Some 3\<rparr>]\<rparr>"
    by (simp add: document_store_def stored_form_def event_def)
  from add_messages_twice [OF h1 h2] show ?thesis
    unfolding e by blast
qed

text \<open>
  With \<open>all_new=False\<close> a record whose id is stored is left out: the call returns 0 and
  the store stays as it was.
\<close>

lemma add_messages_known_id_noop:
  assumes "contains_id (db a) (msg_id r)" and "keyed_by_id a"
  shows "add_messages a [r] False = Inr (0, a)"
proof (cases "kind a")
  case TinyDBArchive
  then show ?thesis using assms(1) by (simp add: add_messages_def)
next
  case MongoMotorArchive
  have k: "list_all (\<lambda>d. mongo_id d = Some (msg_id d)) (db a)"
    using assms(2) MongoMotorArchive by (simp add: keyed_by_id_def)
  have "find_one (db a) (msg_id r) \<noteq> None"
    using assms(1) k by (simp add: keyed_find_one)
  then show ?thesis
    using MongoMotorArchive by (auto simp: add_messages_def Let_def split: option.splits)
qed


section \<open>Properties of the synchronisation engine\<close>

subsection \<open>Watermarks\<close>

text \<open>
  What the watermark loop computes: \<open>latest_id\<close> ends as the largest id seen, and
  \<open>oldest_id\<close> as the smaller of the last id scanned and the largest id seen before it.
\<close>

lemma scan_watermarks_latest:
  "snd (scan_watermarks ms oldest_id latest_id) = Max (insert latest_id (msg_id ` set ms))"
proof (induction ms arbitrary: oldest_id latest_id)
  case Nil
  then show ?case by simp
next
  case (Cons m ms)
  have "Max (insert (max latest_id (msg_id m)) (msg_id ` set ms))
          = Max (insert latest_id (insert (msg_id m) (msg_id ` set ms)))"
    by (cases "set ms = {}") (simp_all add: max.assoc)
  with Cons show ?case by simp
qed

lemma scan_watermarks_oldest:
  "fst (scan_watermarks (ms @ [m]) oldest_id latest_id)
     = min (Max (insert latest_id (msg_id ` set ms))) (msg_id m)"
proof (induction ms arbitrary: oldest_id latest_id)
  case Nil
  then show ?case by simp
next
  case (Cons x xs)
  have "Max (insert (max latest_id (msg_id x)) (msg_id ` set xs))
          = Max (insert latest_id (insert (msg_id x) (msg_id ` set xs)))"
    by (cases "set xs = {}") (simp_all add: max.assoc)
  with Cons show ?case by simp
qed

lemma event_fields [simp]:
  "msg_id (event i) = i" "channel_id (event i) = 1" "author_id (event i) = 1"
  by (simp_all add: event_def)

lemma file_store_fields [simp]:
  "db (file_store docs n) = docs" "kind (file_store docs n) = TinyDBArchive"
  "flush_calls (file_store docs n) = n" "flushed (file_store docs n) = docs"
  by (simp_all add: file_store_def)

lemma get_messages_channel:
  "get_messages a (Bare PyNone) (HasId (PyId ch)) = Inr (filter (\<lambda>m. channel_id m = ch) (db a))"
  by (simp add: get_messages_def get_all_messages_def search_messages_filter eq_commute)

text \<open>
  With a stored record of the channel, \<open>archive_channel\<close> goes on with exactly these
  watermarks.
\<close>

lemma archive_channel_stored:
  assumes "get_messages a (Bare PyNone) (HasId (PyId ch)) = Inr (msg1 # rest)"
  shows "stored_watermarks a ch = Some (scan_watermarks rest (msg_id msg1) (msg_id msg1))"
    and "archive_channel fuel request a ch = fill_channel fuel request ch a 0 msg1 rest"
  using assms by (simp_all add: stored_watermarks_def archive_channel_def)

text \<open>
  C1. After the watermark phase \<open>oldest_id\<close> should be the least stored id of the channel.
  For a file store that enumerates the ids 5, 7, 9 in this order the phase ends with
  \<open>oldest_id = 7\<close> and \<open>latest_id = 9\<close>, while the least stored id is 5: the loop takes
  the minimum with \<open>latest_id\<close> where the backward-fill loop takes it with \<open>oldest_id\<close>.
\<close>

theorem watermark_oldest_wrong:
  "stored_watermarks (file_store [event 5, event 7, event 9] 1) 1 = Some (7, 9)
   \<and> Min (set (map msg_id (db (file_store [event 5, event 7, event 9] 1)))) = 5"
proof -
  have "get_messages (file_store [event 5, event 7, event 9] 1) (Bare PyNone) (HasId (PyId 1))
          = Inr (event 5 # [event 7, event 9])"
    by (simp add: get_messages_channel)
  then have "stored_watermarks (file_store [event 5, event 7, event 9] 1) 1
          = Some (scan_watermarks [event 7, event 9] (msg_id (event 5)) (msg_id (event 5)))"
    by (rule archive_channel_stored(1))
  moreover have "scan_watermarks [event 7, event 9] (msg_id (event 5)) (msg_id (event 5)) = (7, 9)"
    by simp
  moreover have "Min (set (map msg_id (db (file_store [event 5, event 7, event 9] 1)))) = 5"
    by simp
  ultimately show ?thesis by simp
qed

subsection \<open>archive_channel\<close>

text \<open>
  C7. When the store has no record of the channel and the first fetch answers with an empty
  page, \<open>archive_channel\<close> returns 0 and hands the backend back exactly as it was, whatever
  the fuel.
\<close>

theorem empty_channel_returns_zero:
  assumes "\<forall>m \<in> set (db a). channel_id m \<noteq> channel"
    and "fetch_messages request channel 100 None None = Inr []"
  shows "archive_channel fuel request a channel = Some (Inr (0, a))"
proof -
  have "filter (\<lambda>m. channel_id m = channel) (db a) = []"
    using assms(1) by (simp add: filter_empty_conv)
  then show ?thesis
    using assms(2) by (simp add: archive_channel_def get_messages_channel)
qed

lemma fetch_first_empty: "fetch_messages (remote_holding []) 1 100 None None = Inr []"
  by (simp add: fetch_messages_def remote_holding_def)

theorem empty_channel_returns_zero_witness:
  "archive_channel 0 (remote_holding []) (file_store [(event 4)\<lparr>channel_id := 2\<rparr>] 0) 1
     = Some (Inr (0, file_store [(event 4)\<lparr>channel_id := 2\<rparr>] 0))"
proof -
  have h: "\<forall>m \<in> set (db (file_store [(event 4)\<lparr>channel_id := 2\<rparr>] 0)). channel_id m \<noteq> 1"
    by simp
  show ?thesis by (rule empty_channel_returns_zero [OF h fetch_first_empty])
qed

text \<open>Two runs of \<open>archive_channel\<close> against the small remote source, step by step.\<close>

lemma tinydb_add_all_new:
  "tinydb_add_messages ms True added docs = (added + length ms, docs @ ms)"
  by (induction ms arbitrary: added docs) simp_all

lemma add_messages_file_all_new:
  "kind a = TinyDBArchive \<Longrightarrow> add_messages a ms True = Inr (length ms, a\<lparr>db := db a @ ms\<rparr>)"
  by (simp add: add_messages_def tinydb_add_all_new)

lemma flush_after_writes: "flush ((file_store docs n)\<lparr>db := docs'\<rparr>) = file_store docs' (Suc n)"
  by (simp add: flush_def file_store_def)

lemma small_remote_pages:
  "fetch_messages small_remote 1 100 None (Some 7) = Inr [event 9]"
  "fetch_messages small_remote 1 100 None (Some 9) = Inr []"
  "fetch_messages small_remote 1 100 (Some 5) None = Inr []"
  "fetch_messages small_remote 1 100 (Some 7) None = Inr [event 5]"
  by (simp_all add: fetch_messages_def truthy_id_def small_remote_def remote_holding_def)

lemma forward_first:
  "get_new_messages 3 small_remote 1 (file_store [event 5, event 7] 0) 0 7
     = Some (Inr ((file_store [event 5, event 7] 0)\<lparr>db := [event 5, event 7, event 9]\<rparr>, 1, 9))"
  by (simp add: numeral_3_eq_3 small_remote_pages add_messages_file_all_new)

lemma backward_first:
  "get_old_messages 3 small_remote 1
       ((file_store [event 5, event 7] 0)\<lparr>db := [event 5, event 7, event 9]\<rparr>) (Suc 0) 5
     = Some (Inr ((file_store [event 5, event 7] 0)\<lparr>db := [event 5, event 7, event 9]\<rparr>, Suc 0, 5))"
  by (simp add: numeral_3_eq_3 small_remote_pages)

lemma first_call:
  "archive_channel 3 small_remote (file_store [event 5, event 7] 0) 1
     = Some (Inr (1, file_store [event 5, event 7, event 9] 1))"
  by (simp add: archive_channel_def get_messages_channel fill_channel_def
      forward_first backward_first flush_after_writes)

lemma forward_second:
  "get_new_messages 3 small_remote 1 (file_store [event 5, event 7, event 9] (Suc 0)) 0 9
     = Some (Inr (file_store [event 5, event 7, event 9] (Suc 0), 0, 9))"
  by (simp add: numeral_3_eq_3 small_remote_pages)

lemma backward_second:
  "get_old_messages 3 small_remote 1 (file_store [event 5, event 7, event 9] (Suc 0)) 0 7
     = Some (Inr ((file_store [event 5, event 7, event 9] (Suc 0))
                    \<lparr>db := [event 5, event 7, event 9, event 5]\<rparr>, Suc 0, 5))"
  by (simp add: numeral_3_eq_3 small_remote_pages add_messages_file_all_new)

lemma second_call:
  "archive_channel 3 small_remote (file_store [event 5, event 7, event 9] 1) 1
     = Some (Inr (1, file_store [event 5, event 7, event 9, event 5] 2))"
  by (simp add: archive_channel_def get_messages_channel fill_channel_def
      forward_second backward_second flush_after_writes numeral_2_eq_2)

text \<open>
  C3. A second call right after a first one should insert nothing when the remote source has
  nothing outside the stored range. The file store holds 5 and 7 and the remote source 5, 7
  and 9. The first call adds 9. The second call, with all remote events stored, computes
  \<open>oldest_id = 7\<close>, fetches the page before 7, gets the stored event 5 and inserts it once
  more: it returns 1 and the store holds the id 5 twice.
\<close>

theorem second_call_inserts_again:
  "archive_channel 3 small_remote (file_store [event 5, event 7] 0) 1
     = Some (Inr (1, file_store [event 5, event 7, event 9] 1))
   \<and> archive_channel 3 small_remote (file_store [event 5, event 7, event 9] 1) 1
     = Some (Inr (1, file_store [event 5, event 7, event 9, event 5] 2))"
proof
  show "archive_channel 3 small_remote (file_store [event 5, event 7] 0) 1
          = Some (Inr (1, file_store [event 5, event 7, event 9] 1))"
    by (rule first_call)
next
  show "archive_channel 3 small_remote (file_store [event 5, event 7, event 9] 1) 1
          = Some (Inr (1, file_store [event 5, event 7, event 9, event 5] 2))"
    by (rule second_call)
qed

text \<open>
  C2. Adding a record whose id is stored should be a no-op in every call the program makes.
  In the second call above the store holds the id 5, and the backward fill calls
  \<open>add_messages\<close> with \<open>all_new=True\<close> on the page that holds event 5: the file store
  returns 1 and then holds two records with the id 5; a networked store that holds the id
  raises on the same call.
\<close>

theorem stored_id_inserted_again:
  "contains_id (db (file_store [event 5, event 7, event 9] 1)) (msg_id (event 5))
   \<and> get_old_messages 3 small_remote 1 (file_store [event 5, event 7, event 9] 1) 0 7
       = Some (Inr ((file_store [event 5, event 7, event 9] 1)
                      \<lparr>db := [event 5, event 7, event 9, event 5]\<rparr>, 1, 5))
   \<and> add_messages (file_store [event 5, event 7, event 9] 1) [event 5] True
       = Inr (1, (file_store [event 5, event 7, event 9] 1)\<lparr>db := [event 5, event 7, event 9, event 5]\<rparr>)
   \<and> add_messages (document_store [(event 5)\<lparr>mongo_id := Some 5\<rparr>] 0) [event 5] True
       = Inl DuplicateKeyError"
proof (intro conjI)
  show "contains_id (db (file_store [event 5, event 7, event 9] 1)) (msg_id (event 5))"
    by (simp add: contains_id_def)
  show "get_old_messages 3 small_remote 1 (file_store [event 5, event 7, event 9] 1) 0 7
          = Some (Inr ((file_store [event 5, event 7, event 9] 1)
                         \<lparr>db := [event 5, event 7, event 9, event 5]\<rparr>, 1, 5))"
    using backward_second by simp
  show "add_messages (file_store [event 5, event 7, event 9] 1) [event 5] True
          = Inr (1, (file_store [event 5, event 7, event 9] 1)\<lparr>db := [event 5, event 7, event 9, event 5]\<rparr>)"
    by (simp add: add_messages_file_all_new)
  show "add_messages (document_store [(event 5)\<lparr>mongo_id := Some 5\<rparr>] 0) [event 5] True
          = Inl DuplicateKeyError"
    by (simp add: add_messages_def document_store_def event_def insert_one_def find_one_def)
qed

text \<open>Neither \<open>add_messages\<close> nor the two fill loops flush.\<close>

lemma add_messages_flush_calls:
  "add_messages a ms f = Inr (n, a') \<Longrightarrow> flush_calls a' = flush_calls a"
  by (auto simp: add_messages_def split: backend.splits prod.splits sum.splits)

lemma get_new_messages_flush_calls:
  "get_new_messages fuel request ch a added l = Some (Inr (a', n, l')) \<Longrightarrow> flush_calls a' = flush_calls a"
proof (induction fuel arbitrary: a added l)
  case 0
  then show ?case by simp
next
  case (Suc fuel)
  then show ?case
    by (auto split: sum.splits if_splits prod.splits dest: add_messages_flush_calls)
qed

lemma get_old_messages_flush_calls:
  "get_old_messages fuel request ch a added l = Some (Inr (a', n, l')) \<Longrightarrow> flush_calls a' = flush_calls a"
proof (induction fuel arbitrary: a added l)
  case 0
  then show ?case by simp
next
  case (Suc fuel)
  then show ?case
    by (auto split: sum.splits if_splits prod.splits dest: add_messages_flush_calls)
qed

lemma fill_channel_flushes:
  assumes "fill_channel fuel request ch a added msg1 ms = Some (Inr (n, a'))"
  shows "flush_calls a' = flush_calls a + 1 \<and> flushed a' = db a'"
proof -
  obtain o1 l1 where w: "scan_watermarks ms (msg_id msg1) (msg_id msg1) = (o1, l1)"
    by (cases "scan_watermarks ms (msg_id msg1) (msg_id msg1)") simp
  from assms w obtain a1 n1 l2 where
    f: "get_new_messages fuel request ch a added l1 = Some (Inr (a1, n1, l2))"
    by (auto simp: fill_channel_def split: option.splits sum.splits prod.splits)
  from assms w f obtain a2 n2 o2 where
    b: "get_old_messages fuel request ch a1 n1 o1 = Some (Inr (a2, n2, o2))" and r: "a' = flush a2"
    by (auto simp: fill_channel_def split: option.splits sum.splits prod.splits)
  have "flush_calls a2 = flush_calls a"
    using get_new_messages_flush_calls [OF f] get_old_messages_flush_calls [OF b] by simp
  with r show ?thesis by (simp add: flush_def)
qed

text \<open>
  C4, as amended. Whenever \<open>archive_channel\<close> returns, either the store had no record of
  the channel and the first page was empty, and then it returns 0 with the backend untouched
  and unflushed; or the call has flushed exactly once, after its last write: every document
  in the store was there when \<open>flush\<close> was called.
\<close>

theorem archive_channel_flushes_after_fill:
  assumes "archive_channel fuel request a ch = Some (Inr (n, a'))"
  shows "if (\<forall>m \<in> set (db a). channel_id m \<noteq> ch) \<and> fetch_messages request ch 100 None None = Inr []
         then n = 0 \<and> a' = a
         else flush_calls a' = flush_calls a + 1 \<and> flushed a' = db a'"
proof (cases "filter (\<lambda>m. channel_id m = ch) (db a)")
  case Nil
  then have none: "\<forall>m \<in> set (db a). channel_id m \<noteq> ch"
    by (simp add: filter_empty_conv)
  have g: "get_messages a (Bare PyNone) (HasId (PyId ch)) = Inr []"
    by (simp only: get_messages_channel Nil)
  show ?thesis
  proof (cases "fetch_messages request ch 100 None None")
    case (Inl e)
    with assms g show ?thesis by (simp add: archive_channel_def)
  next
    case (Inr page)
    show ?thesis
    proof (cases page)
      case Nil
      with assms g Inr none show ?thesis by (simp add: archive_channel_def)
    next
      case (Cons p ps)
      with assms g Inr obtain k a0 where
        ad: "add_messages a page True = Inr (k, a0)" and
        fl: "fill_channel fuel request ch a0 (0 + k) p page = Some (Inr (n, a'))"
        by (auto simp: archive_channel_def split: sum.splits prod.splits)
      from fill_channel_flushes [OF fl] add_messages_flush_calls [OF ad]
      show ?thesis using Inr Cons by auto
    qed
  qed
next
  case (Cons m1 rest)
  have "m1 \<in> set (filter (\<lambda>m. channel_id m = ch) (db a))"
    by (simp add: Cons)
  then have some: "\<not> (\<forall>m \<in> set (db a). channel_id m \<noteq> ch)"
    by auto
  have g: "get_messages a (Bare PyNone) (HasId (PyId ch)) = Inr (m1 # rest)"
    by (simp only: get_messages_channel Cons)
  with assms have "fill_channel fuel request ch a 0 m1 rest = Some (Inr (n, a'))"
    by (simp add: archive_channel_def)
  from fill_channel_flushes [OF this] some show ?thesis
    by (simp only: if_False simp_thms)
qed

theorem archive_channel_flushes_after_fill_witness:
  "flush_calls (file_store [event 5, event 7, event 9] 1) = flush_calls (file_store [event 5, event 7] 0) + 1
   \<and> flushed (file_store [event 5, event 7, event 9] 1) = db (file_store [event 5, event 7, event 9] 1)"
proof -
  have "\<not> (\<forall>m \<in> set (db (file_store [event 5, event 7] 0)). channel_id m \<noteq> 1)"
    by simp
  with archive_channel_flushes_after_fill [OF first_call] show ?thesis
    by (simp only: if_False simp_thms)
qed

text \<open>
  On the path of the empty channel the call returns 0 and the backend has still not been
  flushed.
\<close>

theorem empty_channel_returns_unflushed:
  "archive_channel 3 (remote_holding []) (file_store [] 0) 1 = Some (Inr (0, file_store [] 0))
   \<and> flush_calls (file_store [] 0) = 0"
  by (simp add: archive_channel_def get_messages_channel fetch_first_empty)

section \<open>Properties of the configuration\<close>

lemma default_path_key: "DEFAULT_PATH drv b = Some p \<Longrightarrow> is_path_key (b @ ''_path'')"
  by (auto simp: DEFAULT_PATH_def is_path_key_def split: if_splits)

lemma make_backend_frame:
  assumes "make_backend drv s = Inr s'"
  shows "config_file s' = config_file s \<and> (\<forall>k. \<not> is_path_key k \<longrightarrow> config s' k = config s k)"
proof -
  from assms obtain b p where b: "config s ''backend'' = Some (VStr b)" and p: "DEFAULT_PATH drv b = Some p"
    by (auto simp: make_backend_def Let_def split: option.splits cfg_value.splits if_splits)
  have k: "is_path_key (b @ ''_path'')" using p by (rule default_path_key)
  from assms b p k show ?thesis
    by (auto simp: make_backend_def Let_def split: option.splits if_splits)
qed

text \<open>
  C5, as amended. At service start the file is rewritten with the defaults merged into what
  it held, and the configuration in memory is that merged result apart from the path key
  that \<open>_make_backend\<close> adds. On \<open>config reload\<close> the configuration in memory is the
  merged result in the same way, and the file is left as it was.
\<close>

theorem config_load_merges_defaults:
  "(init drv file = Inr s \<longrightarrow>
      config_file s = Some (merged_config file)
      \<and> (\<forall>k. \<not> is_path_key k \<longrightarrow> config s k = merged_config file k))
   \<and> (archive_config drv s0 (Some ''reload'') None = Inr s1 \<longrightarrow>
      config_file s1 = config_file s0
      \<and> (\<forall>k. \<not> is_path_key k \<longrightarrow> config s1 k = merged_config (config_file s0) k))"
proof (intro conjI impI)
  assume a: "init drv file = Inr s"
  from make_backend_frame [OF a [unfolded init_def]]
  show "config_file s = Some (merged_config file)"
    and "\<forall>k. \<not> is_path_key k \<longrightarrow> config s k = merged_config file k"
    by (simp_all add: save_config_def load_config_def merged_config_def)
next
  assume "archive_config drv s0 (Some ''reload'') None = Inr s1"
  then have "make_backend drv (load_config s0) = Inr s1"
    by (simp add: archive_config_def)
  from make_backend_frame [OF this]
  show "config_file s1 = config_file s0"
    and "\<forall>k. \<not> is_path_key k \<longrightarrow> config s1 k = merged_config (config_file s0) k"
    by (simp_all add: load_config_def merged_config_def)
qed

lemma init_fresh_runs: "\<not> isl (init both_drivers None)"
  by (simp add: init_def make_backend_def load_config_def save_config_def DEFAULT_CONFIG_def
      DEFAULT_PATH_def archive_backends_def both_drivers_def Let_def)

lemma reload_sparse_runs: "\<not> isl (archive_config both_drivers sparse_service (Some ''reload'') None)"
  by (simp add: archive_config_def make_backend_def load_config_def DEFAULT_CONFIG_def
      DEFAULT_PATH_def archive_backends_def both_drivers_def sparse_service_def Let_def)

theorem config_load_merges_defaults_witness:
  "config_file (projr (init both_drivers None)) = Some (merged_config None)
   \<and> config (projr (init both_drivers None)) ''watch'' = merged_config None ''watch''
   \<and> config_file (projr (archive_config both_drivers sparse_service (Some ''reload'') None))
       = config_file sparse_service
   \<and> config (projr (archive_config both_drivers sparse_service (Some ''reload'') None)) ''watch''
       = merged_config (config_file sparse_service) ''watch''"
proof -
  have h1: "init both_drivers None = Inr (projr (init both_drivers None))"
    using init_fresh_runs by simp
  have h2: "archive_config both_drivers sparse_service (Some ''reload'') None
              = Inr (projr (archive_config both_drivers sparse_service (Some ''reload'') None))"
    using reload_sparse_runs by simp
  have h3: "\<not> is_path_key ''watch''"
    by (simp add: is_path_key_def)
  from config_load_merges_defaults [of both_drivers None "projr (init both_drivers None)"
      sparse_service "projr (archive_config both_drivers sparse_service (Some ''reload'') None)"] h1 h2 h3
  show ?thesis by blast
qed

text \<open>
  A reload with a config file that lacks \<open>watch\<close>: the key is filled in memory and still
  missing from the file.
\<close>

theorem reload_leaves_file_sparse:
  "\<not> isl (archive_config both_drivers sparse_service (Some ''reload'') None)
   \<and> config (projr (archive_config both_drivers sparse_service (Some ''reload'') None)) ''watch''
       = Some (VBool False)
   \<and> the (config_file (projr (archive_config both_drivers sparse_service (Some ''reload'') None))) ''watch''
       = None"
  by (simp add: archive_config_def make_backend_def load_config_def DEFAULT_CONFIG_def
      DEFAULT_PATH_def archive_backends_def both_drivers_def sparse_service_def Let_def)

text \<open>
  C9. Setting \<open>backend\<close> to a name that is not in the registry changes nothing but the
  replies: the configuration in memory, the config file and the active backend stay, and no
  backend is built or closed.
\<close>

theorem unknown_backend_rejected:
  assumes "archive_backends drv v = None"
  shows "\<exists>s'. archive_config drv s (Some ''backend'') (Some v) = Inr s'
            \<and> config s' = config s \<and> config_file s' = config_file s
            \<and> active s' = active s \<and> builds s' = builds s \<and> closes s' = closes s
            \<and> said s' = said s @ [BackendNotInstalled v]"
  using assms by (simp add: archive_config_def)

theorem unknown_backend_rejected_witness:
  "\<exists>s'. archive_config both_drivers sparse_service (Some ''backend'') (Some ''ZODB'') = Inr s'
       \<and> config s' = config sparse_service \<and> config_file s' = config_file sparse_service
       \<and> active s' = active sparse_service \<and> builds s' = builds sparse_service
       \<and> closes s' = closes sparse_service
       \<and> said s' = said sparse_service @ [BackendNotInstalled ''ZODB'']"
proof -
  have h: "archive_backends both_drivers ''ZODB'' = None"
    by (simp add: archive_backends_def)
  show ?thesis by (rule unknown_backend_rejected [OF h])
qed

text \<open>
  C10. After an initialisation that found no config file, the configuration in memory holds
  \<open>TinyDB_path\<close> with the default location of the active backend, while the file written
  holds the defaults only, without that key; and \<open>_make_backend\<close> never writes the file.
\<close>

theorem init_path_not_on_disk:
  assumes "init drv None = Inr s"
  shows "config s ''backend'' = Some (VStr ''TinyDB'')
         \<and> DEFAULT_PATH drv ''TinyDB'' = Some ''data/archiver/messages.json''
         \<and> config s ''TinyDB_path'' = Some (VStr ''data/archiver/messages.json'')
         \<and> active s = Some (TinyDBArchive, VStr ''data/archiver/messages.json'')
         \<and> config_file s = Some DEFAULT_CONFIG
         \<and> DEFAULT_CONFIG ''TinyDB_path'' = None
         \<and> (\<forall>t t'. make_backend drv t = Inr t' \<longrightarrow> config_file t' = config_file t)"
proof -
  have t: "TinyDB drv"
    using assms
    by (auto simp: init_def make_backend_def load_config_def save_config_def DEFAULT_CONFIG_def
        DEFAULT_PATH_def Let_def split: option.splits if_splits)
  have "config s ''backend'' = Some (VStr ''TinyDB'')
         \<and> DEFAULT_PATH drv ''TinyDB'' = Some ''data/archiver/messages.json''
         \<and> config s ''TinyDB_path'' = Some (VStr ''data/archiver/messages.json'')
         \<and> active s = Some (TinyDBArchive, VStr ''data/archiver/messages.json'')
         \<and> config_file s = Some DEFAULT_CONFIG
         \<and> DEFAULT_CONFIG ''TinyDB_path'' = None"
    using assms t
    by (auto simp: init_def make_backend_def load_config_def save_config_def DEFAULT_CONFIG_def
        DEFAULT_PATH_def archive_backends_def Let_def)
  moreover have "\<forall>t t'. make_backend drv t = Inr t' \<longrightarrow> config_file t' = config_file t"
    using make_backend_frame by blast
  ultimately show ?thesis by blast
qed

lemma rebuild_sparse_runs: "\<not> isl (make_backend both_drivers sparse_service)"
  by (simp add: make_backend_def DEFAULT_PATH_def archive_backends_def both_drivers_def
      sparse_service_def Let_def)

theorem init_path_not_on_disk_witness:
  "config (projr (init both_drivers None)) ''TinyDB_path'' = Some (VStr ''data/archiver/messages.json'')
   \<and> config_file (projr (init both_drivers None)) = Some DEFAULT_CONFIG
   \<and> DEFAULT_CONFIG ''TinyDB_path'' = None
   \<and> config_file (projr (make_backend both_drivers sparse_service)) = config_file sparse_service"
proof -
  have h: "init both_drivers None = Inr (projr (init both_drivers None))"
    using init_fresh_runs by simp
  have h2: "make_backend both_drivers sparse_service = Inr (projr (make_backend both_drivers sparse_service))"
    using rebuild_sparse_runs by simp
  from init_path_not_on_disk [OF h] h2 show ?thesis by blast
qed

end
